theory Spec2Isabelle
  imports Main "HOL-Library.Word" "HOL-Library.Char_ord" "HOL-Library.List_Lexorder"
begin

section \<open>Results of Go calls\<close>

text \<open>
  A Go call either returns or panics. A function returning \<open>(*T, error)\<close> returns a
  pair of options: \<open>None\<close> is the nil pointer, respectively the nil error.
\<close>

datatype 'a outcome = Returns 'a | Panic

text \<open>
  The error values that travel through \<open>client.go\<close>, by the Go type that carries them:
  \<open>*url.Error\<close> (from \<open>url.Parse\<close> and \<open>http.Client.Do\<close>), the errors of
  \<open>encoding/json\<close>, an I/O error of the body reader, and \<open>*errors.errorString\<close>,
  which is what \<open>errors.New\<close> and \<open>fmt.Errorf\<close> (without a wrapping verb) build.
\<close>

datatype error =
    UrlError string
  | JsonError string
  | IOError string
  | ErrorString string

section \<open>path.Join\<close>

text \<open>
  \<open>path.Join\<close> of the Go library: the elements are written to a buffer, a slash before
  every element once the buffer is not empty (leading empty elements are skipped), and
  the result is cleaned; if all elements are empty the result is the empty string.
  \<open>path.Clean\<close> works on the slash-separated elements of the path: empty elements and
  \<open>.\<close> are dropped, \<open>..\<close> removes the element before it if there is one that is
  not itself \<open>..\<close>, is dropped at the root of a rooted path and is kept otherwise; the
  empty path and an unrooted path of which nothing is left are \<open>.\<close>.
\<close>

fun split_on :: "char \<Rightarrow> string \<Rightarrow> string list" where
  "split_on sep [] = [[]]"
| "split_on sep (c # cs) =
     (if c = sep then [] # split_on sep cs
      else (case split_on sep cs of
              [] \<Rightarrow> [[c]]
            | x # xs \<Rightarrow> (c # x) # xs))"

fun join_with :: "char \<Rightarrow> string list \<Rightarrow> string" where
  "join_with sep [] = []"
| "join_with sep [x] = x"
| "join_with sep (x # y # ys) = x @ sep # join_with sep (y # ys)"

definition clean_step :: "bool \<Rightarrow> string list \<Rightarrow> string \<Rightarrow> string list" where
  "clean_step rooted out seg =
     (if seg = [] \<or> seg = ''.'' then out
      else if seg = ''..'' then
        (if out \<noteq> [] \<and> last out \<noteq> ''..'' then butlast out
         else if rooted then out
         else out @ [''..''])
      else out @ [seg])"

definition path_Clean :: "string \<Rightarrow> string" where
  "path_Clean p =
     (if p = [] then ''.''
      else
        let rooted = (hd p = CHR ''/'');
            out = foldl (clean_step rooted) [] (split_on (CHR ''/'') p)
        in if rooted then CHR ''/'' # join_with (CHR ''/'') out
           else if out = [] then ''.''
           else join_with (CHR ''/'') out)"

definition path_Join :: "string list \<Rightarrow> string" where
  "path_Join elem =
     (if concat elem = [] then []
      else path_Clean
        (fold (\<lambda>e buf. if buf \<noteq> [] then buf @ CHR ''/'' # e
                      else if e \<noteq> [] then e else buf) elem []))"


text \<open>
  What holds of the elements that \<open>path.Clean\<close> has kept so far: none is empty, none
  is \<open>.\<close>, none has a slash.
\<close>

definition clean_inv :: "string list \<Rightarrow> bool" where
  "clean_inv out = (\<forall>seg\<in>set out. seg \<noteq> [] \<and> seg \<noteq> ''.'' \<and> CHR ''/'' \<notin> set seg)"

section \<open>crypto/md5 and the hexadecimal verb\<close>

text \<open>
  The MD5 message digest (RFC 1321), which \<open>md5.New\<close>, \<open>Write\<close> and \<open>Sum\<close> of the Go
  library compute: the message is padded with the byte \<open>0x80\<close>, zero bytes up to 56
  modulo 64 and its length in bits as 8 little-endian bytes, and read in blocks of 16
  little-endian 32-bit words; each block goes through 64 steps on a state of four
  32-bit words. A Go string is a sequence of bytes, as a \<open>string\<close> is here.
\<close>

unbundle bit_operations_syntax

type_synonym md5_state = "32 word \<times> 32 word \<times> 32 word \<times> 32 word"

definition md5_K :: "32 word list" where
  "md5_K =
    [0xd76aa478, 0xe8c7b756, 0x242070db, 0xc1bdceee,
     0xf57c0faf, 0x4787c62a, 0xa8304613, 0xfd469501,
     0x698098d8, 0x8b44f7af, 0xffff5bb1, 0x895cd7be,
     0x6b901122, 0xfd987193, 0xa679438e, 0x49b40821,
     0xf61e2562, 0xc040b340, 0x265e5a51, 0xe9b6c7aa,
     0xd62f105d, 0x02441453, 0xd8a1e681, 0xe7d3fbc8,
     0x21e1cde6, 0xc33707d6, 0xf4d50d87, 0x455a14ed,
     0xa9e3e905, 0xfcefa3f8, 0x676f02d9, 0x8d2a4c8a,
     0xfffa3942, 0x8771f681, 0x6d9d6122, 0xfde5380c,
     0xa4beea44, 0x4bdecfa9, 0xf6bb4b60, 0xbebfbc70,
     0x289b7ec6, 0xeaa127fa, 0xd4ef3085, 0x04881d05,
     0xd9d4d039, 0xe6db99e5, 0x1fa27cf8, 0xc4ac5665,
     0xf4292244, 0x432aff97, 0xab9423a7, 0xfc93a039,
     0x655b59c3, 0x8f0ccc92, 0xffeff47d, 0x85845dd1,
     0x6fa87e4f, 0xfe2ce6e0, 0xa3014314, 0x4e0811a1,
     0xf7537e82, 0xbd3af235, 0x2ad7d2bb, 0xeb86d391]"

definition md5_shift :: "nat list" where
  "md5_shift =
    [7, 12, 17, 22, 7, 12, 17, 22, 7, 12, 17, 22, 7, 12, 17, 22,
     5, 9, 14, 20, 5, 9, 14, 20, 5, 9, 14, 20, 5, 9, 14, 20,
     4, 11, 16, 23, 4, 11, 16, 23, 4, 11, 16, 23, 4, 11, 16, 23,
     6, 10, 15, 21, 6, 10, 15, 21, 6, 10, 15, 21, 6, 10, 15, 21]"

definition md5_init :: md5_state where
  "md5_init = (0x67452301, 0xefcdab89, 0x98badcfe, 0x10325476)"

definition md5_step :: "32 word list \<Rightarrow> nat \<Rightarrow> md5_state \<Rightarrow> md5_state" where
  "md5_step M i st =
     (case st of (a, b, c, d) \<Rightarrow>
        let (f, g) =
              (if i < 16 then ((b AND c) OR (NOT b AND d), i)
               else if i < 32 then ((d AND b) OR (NOT d AND c), (5 * i + 1) mod 16)
               else if i < 48 then (b XOR c XOR d, (3 * i + 5) mod 16)
               else (c XOR (b OR NOT d), (7 * i) mod 16));
            f' = f + a + md5_K ! i + M ! g
        in (d, b + word_rotl (md5_shift ! i) f', b, c))"

definition md5_block :: "32 word list \<Rightarrow> md5_state \<Rightarrow> md5_state" where
  "md5_block M st =
     (case st of (a0, b0, c0, d0) \<Rightarrow>
        (case fold (md5_step M) [0..<64] st of
           (a, b, c, d) \<Rightarrow> (a0 + a, b0 + b, c0 + c, d0 + d)))"

definition le32 :: "string \<Rightarrow> 32 word" where
  "le32 bs = foldr (\<lambda>c w. of_char c + 256 * w) bs 0"

definition le_bytes :: "nat \<Rightarrow> 'a::len word \<Rightarrow> string" where
  "le_bytes k w = map (\<lambda>i. char_of (uint (drop_bit (8 * i) w))) [0..<k]"

definition md5_pad :: "string \<Rightarrow> string" where
  "md5_pad msg =
     msg @ [char_of (0x80 :: nat)]
         @ replicate ((119 - length msg mod 64) mod 64) (char_of (0 :: nat))
         @ le_bytes 8 (8 * of_nat (length msg) :: 64 word)"

definition md5_blocks :: "string \<Rightarrow> 32 word list list" where
  "md5_blocks p =
     map (\<lambda>i. map (\<lambda>j. le32 (take 4 (drop (64 * i + 4 * j) p))) [0..<16])
       [0..<length p div 64]"

definition md5_digest :: "string \<Rightarrow> md5_state" where
  "md5_digest msg = fold md5_block (md5_blocks (md5_pad msg)) md5_init"

definition md5_bytes :: "md5_state \<Rightarrow> string" where
  "md5_bytes st =
     (case st of (a, b, c, d) \<Rightarrow> concat (map (le_bytes 4) [a, b, c, d]))"

text \<open>
  The hash object \<open>h\<close> of \<open>Authenticate\<close> is the bytes written to it so far.
  \<open>io.WriteString\<close> returns the number of bytes written and an error; the \<open>Write\<close> of
  a hash never fails, so the error is always nil. \<open>h.Sum(nil)\<close> is the digest, 16 bytes.
\<close>

definition md5_New :: string where
  "md5_New = []"

definition io_WriteString :: "string \<Rightarrow> string \<Rightarrow> string \<times> nat \<times> error option" where
  "io_WriteString h s = (h @ s, length s, None)"

definition md5_Sum :: "string \<Rightarrow> string" where
  "md5_Sum h = md5_bytes (md5_digest h)"

text \<open>\<open>fmt.Sprintf("%x", bytes)\<close>: two lowercase hexadecimal digits for every byte.\<close>

definition hex_digit :: "nat \<Rightarrow> char" where
  "hex_digit n = ''0123456789abcdef'' ! (n mod 16)"

definition Sprintf_x :: "string \<Rightarrow> string" where
  "Sprintf_x bs = concat (map (\<lambda>c. [hex_digit (of_char c div 16), hex_digit (of_char c mod 16)]) bs)"


section \<open>net/url query values\<close>

text \<open>
  \<open>url.Values\<close> is a map from a key to the list of its values. It is kept here as an
  association list, looked up at the first entry of a key. \<open>Add\<close> appends a value to
  the list of its key, so the first value of a key is the one added first.
  \<open>Encode\<close> writes \<open>key=value\<close> for every value of every key, the keys sorted, both
  sides escaped by \<open>QueryEscape\<close>, with \<open>&\<close> between the pairs. \<open>QueryEscape\<close> keeps
  letters, digits and \<open>-_.~\<close>, writes a space as \<open>+\<close> and every other byte as \<open>%\<close>
  and its two uppercase hexadecimal digits.
\<close>

type_synonym Values = "(string \<times> string list) list"

definition Values_lookup :: "Values \<Rightarrow> string \<Rightarrow> string list" where
  "Values_lookup q k = (case map_of q k of None \<Rightarrow> [] | Some vs \<Rightarrow> vs)"

fun Values_Add :: "Values \<Rightarrow> string \<Rightarrow> string \<Rightarrow> Values" where
  "Values_Add [] k v = [(k, [v])]"
| "Values_Add ((k', vs) # q) k v =
     (if k' = k then (k', vs @ [v]) # q else (k', vs) # Values_Add q k v)"

definition upper_hex_digit :: "nat \<Rightarrow> char" where
  "upper_hex_digit n = ''0123456789ABCDEF'' ! (n mod 16)"

definition unreserved :: "char \<Rightarrow> bool" where
  "unreserved c =
     (let n = (of_char c :: nat)
      in (97 \<le> n \<and> n \<le> 122) \<or> (65 \<le> n \<and> n \<le> 90) \<or> (48 \<le> n \<and> n \<le> 57)
         \<or> c = CHR ''-'' \<or> c = CHR ''_'' \<or> c = CHR ''.'' \<or> c = CHR ''~'')"

definition escape_byte :: "char \<Rightarrow> string" where
  "escape_byte c =
     (if unreserved c then [c]
      else if c = CHR '' '' then ''+''
      else [CHR ''%'', upper_hex_digit (of_char c div 16), upper_hex_digit (of_char c mod 16)])"

definition QueryEscape :: "string \<Rightarrow> string" where
  "QueryEscape s = concat (map escape_byte s)"

definition query_pair :: "string \<Rightarrow> string \<Rightarrow> string" where
  "query_pair k v = QueryEscape k @ ''='' @ QueryEscape v"

definition Encode_pairs :: "Values \<Rightarrow> string list" where
  "Encode_pairs q =
     concat (map (\<lambda>k. map (query_pair k) (Values_lookup q k)) (sort (remdups (map fst q))))"

definition Values_Encode :: "Values \<Rightarrow> string" where
  "Values_Encode q = join_with (CHR ''&'') (Encode_pairs q)"

section \<open>The client and its collaborators\<close>

text \<open>
  A parsed URL (\<open>url.URL\<close>) with the fields the client touches, a request
  (\<open>http.Request\<close>) and a response (\<open>http.Response\<close>). The body of a response is what
  \<open>ioutil.ReadAll\<close> makes of it: the bytes read, or the message of a read error.
\<close>

record URL =
  Scheme :: string
  Host :: string
  Path :: string
  RawQuery :: string

record request =
  Method :: string
  URL :: URL

record response =
  StatusCode :: nat
  Body :: "string + string"

text \<open>
  Modelled from the spec: the types \<open>apiResponse\<close>, \<open>subsonicResponse\<close> and the error
  record are declared outside \<open>client.go\<close>. The envelope holds a pointer to the nested
  object under the key \<open>subsonic-response\<close>; the nested object holds a pointer to an
  error record (numeric code, message) beside its endpoint-specific fields, which the
  client does not look into (\<open>'p\<close>). \<open>Get\<close> returns the pointer to the nested object
  and prints the code with \<open>%d\<close> and the message with \<open>%s\<close>.
\<close>

record ErrorRecord =
  Code :: int
  Message :: string

record 'p subsonicResponse =
  Error :: "ErrorRecord option"
  Payload :: 'p

record 'p apiResponse =
  Response :: "'p subsonicResponse option"

text \<open>
  The library functions whose results the client only passes on:
  \<open>url.Parse\<close> (the parsed URL, or the message of its error);
  the failure of \<open>http.NewRequest(method, u.String(), nil)\<close>, which rejects an invalid
  method and a URL string it cannot parse again, and otherwise builds a request with
  the method (\<open>GET\<close> for the empty one) and the URL parsed from that string, which
  for the URL of a server (scheme, host, path and query) is \<open>u\<close> again;
  \<open>URL.Query\<close>, the values of a raw query string;
  \<open>json.Unmarshal\<close> into an \<open>apiResponse\<close> (the decoded envelope, or the message of
  its error).
\<close>

record 'p lib =
  url_Parse :: "string \<Rightarrow> string + URL"
  NewRequest_error :: "string \<Rightarrow> URL \<Rightarrow> error option"
  url_Query :: "string \<Rightarrow> Values"
  json_Unmarshal :: "string \<Rightarrow> string + 'p apiResponse"

definition http_NewRequest :: "'p lib \<Rightarrow> string \<Rightarrow> URL \<Rightarrow> error + request" where
  "http_NewRequest lib method u =
     (case NewRequest_error lib method u of
        Some err \<Rightarrow> Inl err
      | None \<Rightarrow> Inr \<lparr>Method = (if method = [] then ''GET'' else method), URL = u\<rparr>)"

text \<open>
  The \<open>Client\<close> struct. The transport handle is a pointer to an \<open>http.Client\<close>: nil, or
  a client whose \<open>Do\<close> answers a request with a response or fails with the message of
  a \<open>*url.Error\<close>.
\<close>

record Client =
  Client :: "(request \<Rightarrow> string + response) option"
  BaseUrl :: string
  User :: string
  ClientName :: string
  salt :: string
  token :: string

definition supportedApiVersion :: string where
  "supportedApiVersion = ''1.8.0''"

section \<open>generateSalt\<close>

text \<open>
  The process-wide source of \<open>math/rand\<close> is a sequence of draws and a position in it.
  \<open>rand.Intn(n)\<close>, for \<open>n > 0\<close>, returns a number below \<open>n\<close> and advances the source:
  whatever is drawn is reduced below \<open>n\<close>. The only call has \<open>n = 62\<close>, the length of
  the corpus, so the index into the corpus is in range. \<open>b\<close> starts as ten zero runes,
  and the loop writes every position.
\<close>

datatype rng = Rng "nat \<Rightarrow> nat" nat

fun rand_Intn :: "rng \<Rightarrow> nat \<Rightarrow> nat \<times> rng" where
  "rand_Intn (Rng draws pos) n = (draws pos mod n, Rng draws (Suc pos))"

definition corpus :: string where
  "corpus = ''abcdefghijklmnopqrstuvwxyzABCDEFGHIJKLMNOPQRSTUVWXYZ0123456789''"

definition salt_step :: "nat \<Rightarrow> string \<times> rng \<Rightarrow> string \<times> rng" where
  "salt_step i bg =
     (case bg of (b, g) \<Rightarrow>
        (case rand_Intn g (length corpus) of (r, g') \<Rightarrow> (b[i := corpus ! r], g')))"

definition generateSalt :: "rng \<Rightarrow> string \<times> rng" where
  "generateSalt g =
     (let b = replicate 10 (char_of (0 :: nat))
      in fold salt_step [0..<length b] (b, g))"

section \<open>Request, Get, Ping, Authenticate\<close>

text \<open>
  Every method has the receiver \<open>s *Client\<close>: it takes the client and returns it beside
  its result, as it has left it. \<open>params\<close> is a Go map: a list of pairs with distinct
  keys, in the order the \<open>range\<close> loop happens to visit them; nil is the empty list.
  \<open>Do\<close> on a nil transport handle and a field read through a nil pointer panic.
  \<open>Ping\<close> writes the error it drops to the log of the process, which is not part of
  the client and is left out. \<open>Authenticate\<close> also takes and returns the random source.
\<close>

text \<open>Lines 68 to 88 of \<open>Request\<close>: the request that is handed to the transport.\<close>

definition build_request ::
    "'p lib \<Rightarrow> Client \<Rightarrow> string \<Rightarrow> string \<Rightarrow> (string \<times> string) list \<Rightarrow> error + request" where
  "build_request lib s method endpoint params =
     (case url_Parse lib (BaseUrl s) of
        Inl msg \<Rightarrow> Inl (UrlError msg)
      | Inr baseUrl \<Rightarrow>
          (case http_NewRequest lib method
                  (baseUrl\<lparr>Path := path_Join [Path baseUrl, ''/rest/'', endpoint]\<rparr>) of
             Inl err \<Rightarrow> Inl err
           | Inr req \<Rightarrow>
               let q = url_Query lib (RawQuery (URL req));
                   q = Values_Add q ''f'' ''json'';
                   q = Values_Add q ''v'' supportedApiVersion;
                   q = Values_Add q ''c'' (ClientName s);
                   q = Values_Add q ''u'' (User s);
                   q = Values_Add q ''t'' (token s);
                   q = Values_Add q ''s'' (salt s);
                   q = fold (\<lambda>(key, val) q. Values_Add q key val) params q
               in Inr (req\<lparr>URL := (URL req)\<lparr>RawQuery := Values_Encode q\<rparr>\<rparr>)))"

definition Request ::
    "'p lib \<Rightarrow> Client \<Rightarrow> string \<Rightarrow> string \<Rightarrow> (string \<times> string) list
      \<Rightarrow> (response option \<times> error option) outcome \<times> Client" where
  "Request lib s method endpoint params =
     (case build_request lib s method endpoint params of
        Inl err \<Rightarrow> (Returns (None, Some err), s)
      | Inr req \<Rightarrow>
          (case Client s of
             None \<Rightarrow> (Panic, s)
           | Some do \<Rightarrow>
               (case do req of
                  Inl msg \<Rightarrow> (Returns (None, Some (UrlError msg)), s)
                | Inr resp \<Rightarrow> (Returns (Some resp, None), s))))"

text \<open>\<open>%d\<close> of \<open>fmt\<close>: the decimal digits of an integer, a minus sign before a negative one.\<close>

fun dec_nat :: "nat \<Rightarrow> string" where
  "dec_nat n =
     (if n < 10 then [''0123456789'' ! n]
      else dec_nat (n div 10) @ [''0123456789'' ! (n mod 10)])"

declare dec_nat.simps [simp del]

definition Sprintf_d :: "int \<Rightarrow> string" where
  "Sprintf_d i = (if i < 0 then CHR ''-'' # dec_nat (nat (- i)) else dec_nat (nat i))"

definition Errorf_application :: "int \<Rightarrow> string \<Rightarrow> error" where
  "Errorf_application code message =
     ErrorString (''Error #'' @ Sprintf_d code @ '': '' @ message @ [CHR 0x0A])"

definition Get ::
    "'p lib \<Rightarrow> Client \<Rightarrow> string \<Rightarrow> (string \<times> string) list
      \<Rightarrow> ('p subsonicResponse option \<times> error option) outcome \<times> Client" where
  "Get lib s endpoint params =
     (case Request lib s ''GET'' endpoint params of
        (Panic, s') \<Rightarrow> (Panic, s')
      | (Returns (_, Some err), s') \<Rightarrow> (Returns (None, Some err), s')
      | (Returns (None, None), s') \<Rightarrow> (Panic, s')
      | (Returns (Some response, None), s') \<Rightarrow>
          (case Body response of
             Inl msg \<Rightarrow> (Returns (None, Some (IOError msg)), s')
           | Inr responseBody \<Rightarrow>
               (case json_Unmarshal lib responseBody of
                  Inl msg \<Rightarrow> (Returns (None, Some (JsonError msg)), s')
                | Inr parsed \<Rightarrow>
                    (case Response parsed of
                       None \<Rightarrow> (Panic, s')
                     | Some resp \<Rightarrow>
                         (case Error resp of
                            Some e \<Rightarrow>
                              (Returns (None, Some (Errorf_application (Code e) (Message e))), s')
                          | None \<Rightarrow> (Returns (Some resp, None), s'))))))"

definition Ping :: "'p lib \<Rightarrow> Client \<Rightarrow> bool outcome \<times> Client" where
  "Ping lib s =
     (case Request lib s ''GET'' ''ping'' [] of
        (Panic, s') \<Rightarrow> (Panic, s')
      | (Returns (_, Some err), s') \<Rightarrow> (Returns False, s')
      | (Returns (_, None), s') \<Rightarrow> (Returns True, s'))"

definition Authenticate ::
    "'p lib \<Rightarrow> rng \<Rightarrow> Client \<Rightarrow> string \<Rightarrow> error option outcome \<times> Client \<times> rng" where
  "Authenticate lib g s password =
     (case generateSalt g of (salt', g') \<Rightarrow>
        (case io_WriteString md5_New password of
           (h, _, Some err) \<Rightarrow> (Returns (Some err), s, g')
         | (h, _, None) \<Rightarrow>
             (case io_WriteString h salt' of
                (h, _, Some err) \<Rightarrow> (Returns (Some err), s, g')
              | (h, _, None) \<Rightarrow>
                  (case Ping lib (s\<lparr>salt := salt', token := Sprintf_x (md5_Sum h)\<rparr>) of
                     (Panic, s') \<Rightarrow> (Panic, s', g')
                   | (Returns ok, s') \<Rightarrow>
                       if \<not> ok then (Returns (Some (ErrorString ''Authentication failed'')), s', g')
                       else (Returns None, s', g')))))"

section \<open>Reading a query string\<close>

text \<open>
  What a server reads from a raw query, as \<open>url.ParseQuery\<close> does: its fields, cut at
  \<open>&\<close>, the empty ones skipped; the key of a field, the text before its first \<open>=\<close>,
  and its value, the text after it; and the text that an escaped key or value stands
  for (\<open>+\<close> is a space, \<open>%XY\<close> the byte with the hexadecimal digits \<open>XY\<close>; a
  \<open>%\<close> without two characters after it is kept, which no escaped text has). The
  pairs of key and value, in the order of the fields, serve to state what the built
  query holds.
\<close>

definition query_fields :: "string \<Rightarrow> string list" where
  "query_fields raw = filter (\<lambda>f. f \<noteq> []) (split_on (CHR ''&'') raw)"

definition field_key :: "string \<Rightarrow> string" where
  "field_key f = takeWhile (\<lambda>c. c \<noteq> CHR ''='') f"

definition field_value :: "string \<Rightarrow> string" where
  "field_value f = drop 1 (dropWhile (\<lambda>c. c \<noteq> CHR ''='') f)"

definition hex_value :: "char \<Rightarrow> nat" where
  "hex_value c =
     (let n = (of_char c :: nat)
      in if 48 \<le> n \<and> n \<le> 57 then n - 48
         else if 65 \<le> n \<and> n \<le> 70 then n - 55
         else if 97 \<le> n \<and> n \<le> 102 then n - 87
         else 0)"

fun QueryUnescape :: "string \<Rightarrow> string" where
  "QueryUnescape [] = []"
| "QueryUnescape (c # cs) =
     (if c = CHR ''+'' then CHR '' '' # QueryUnescape cs
      else if c = CHR ''%'' then
        (case cs of
           a # b # rest \<Rightarrow> char_of (16 * hex_value a + hex_value b) # QueryUnescape rest
         | _ \<Rightarrow> c # QueryUnescape cs)
      else c # QueryUnescape cs)"

definition query_pairs :: "string \<Rightarrow> (string \<times> string) list" where
  "query_pairs raw =
     map (\<lambda>f. (QueryUnescape (field_key f), QueryUnescape (field_value f))) (query_fields raw)"

text \<open>
  A server that meets a key more than once in a query picks one of its values: the
  first (as \<open>Values.Get\<close> of the Go library and the parameter lookup of a Java servlet
  do) or the last (as a reader that stores the pairs in a plain map does).
\<close>

definition first_value :: "(string \<times> string) list \<Rightarrow> string \<Rightarrow> string option" where
  "first_value pairs k = map_of pairs k"

definition last_value :: "(string \<times> string) list \<Rightarrow> string \<Rightarrow> string option" where
  "last_value pairs k = map_of (rev pairs) k"

text \<open>The pairs of a \<open>Values\<close>, in the order in which \<open>Encode\<close> writes them.\<close>

definition Values_pairs :: "Values \<Rightarrow> (string \<times> string) list" where
  "Values_pairs q =
     concat (map (\<lambda>k. map (Pair k) (Values_lookup q k)) (sort (remdups (map fst q))))"

text \<open>The pairs that lines 79 to 84 of \<open>Request\<close> add to every query, in that order.\<close>

definition mandated :: "Client \<Rightarrow> (string \<times> string) list" where
  "mandated s =
     [(''f'', ''json''), (''v'', supportedApiVersion), (''c'', ClientName s),
      (''u'', User s), (''t'', token s), (''s'', salt s)]"

text \<open>An endpoint name is a single path element: not empty, no slash, not a dot element.\<close>

definition endpoint_name :: "string \<Rightarrow> bool" where
  "endpoint_name e = (e \<noteq> [] \<and> CHR ''/'' \<notin> set e \<and> e \<noteq> ''.'' \<and> e \<noteq> ''..'')"

section \<open>An example world\<close>

text \<open>
  A server at \<open>http://host/music\<close> for the examples. The library functions are given on
  the inputs the examples meet: the base URL parses into its parts and has no query,
  every method is valid, and three response bodies are decoded: the envelope of a
  rejected login (error 40), the envelope of a successful ping, and the empty JSON
  object, which has no \<open>subsonic-response\<close> member and leaves the pointer nil. Any other
  body counts as a syntax error.
\<close>

definition failed_body :: string where
  \<open>failed_body =
     ''{"subsonic-response":{"status":"failed","error":{"code":40,"message":"Wrong username or password"}}}''\<close>

definition ok_body :: string where
  \<open>ok_body = ''{"subsonic-response":{"status":"ok","version":"1.8.0"}}''\<close>

definition example_lib :: "(string \<times> string) list lib" where
  "example_lib =
     \<lparr>url_Parse = (\<lambda>raw. if raw = ''http://host/music''
                          then Inr \<lparr>Scheme = ''http'', Host = ''host'', Path = ''/music'', RawQuery = []\<rparr>
                          else Inl ''parse error''),
      NewRequest_error = (\<lambda>method u. None),
      url_Query = (\<lambda>raw. []),
      json_Unmarshal = (\<lambda>body.
         if body = failed_body then
           Inr \<lparr>Response = Some \<lparr>Error = Some \<lparr>Code = 40, Message = ''Wrong username or password''\<rparr>,
                                  Payload = [(''status'', ''failed'')]\<rparr>\<rparr>
         else if body = ok_body then
           Inr \<lparr>Response = Some \<lparr>Error = None,
                                  Payload = [(''status'', ''ok''), (''version'', ''1.8.0'')]\<rparr>\<rparr>
         else if body = ''{}'' then Inr \<lparr>Response = None\<rparr>
         else Inl ''invalid character'')\<rparr>"

definition rejecting_server :: "request \<Rightarrow> string + response" where
  "rejecting_server req = Inr \<lparr>StatusCode = 200, Body = Inr failed_body\<rparr>"

definition empty_object_server :: "request \<Rightarrow> string + response" where
  "empty_object_server req = Inr \<lparr>StatusCode = 200, Body = Inr ''{}''\<rparr>"

definition refusing_server :: "request \<Rightarrow> string + response" where
  "refusing_server req = Inl ''connection refused''"

definition example_client :: Client where
  "example_client =
     \<lparr>Client = Some rejecting_server, BaseUrl = ''http://host/music'', User = ''alice'',
      ClientName = ''player'', salt = ''0123456789'', token = ''stale''\<rparr>"

definition example_rng :: rng where
  "example_rng = Rng (\<lambda>i. 7 * i + 3) 0"

section \<open>Lemmas on splitting and joining\<close>

lemma split_on_not_Nil: "split_on sep p \<noteq> []"
  by (induction p) (auto split: list.splits)

lemma split_on_append:
  "split_on sep (xs @ sep # ys) = split_on sep xs @ split_on sep ys"
proof (induction xs)
  case Nil
  then show ?case by simp
next
  case (Cons c xs)
  then show ?case
    using split_on_not_Nil [of sep xs]
    by (cases "split_on sep xs") auto
qed

lemma split_on_no_sep: "sep \<notin> set xs \<Longrightarrow> split_on sep xs = [xs]"
  by (induction xs) auto

lemma split_on_parts_no_sep: "x \<in> set (split_on sep p) \<Longrightarrow> sep \<notin> set x"
proof (induction p arbitrary: x)
  case Nil
  then show ?case by simp
next
  case (Cons c p)
  then show ?case
    by (cases "split_on sep p") (auto split: if_splits)
qed

lemma join_with_snoc:
  "out \<noteq> [] \<Longrightarrow> join_with sep (out @ [x]) = join_with sep out @ sep # x"
  by (induction sep out rule: join_with.induct) auto

lemma join_with_Nil_iff:
  "\<forall>seg\<in>set out. seg \<noteq> [] \<Longrightarrow> join_with sep out = [] \<longleftrightarrow> out = []"
  by (induction sep out rule: join_with.induct) auto

lemma split_on_join_with:
  "\<forall>x\<in>set xs. sep \<notin> set x \<and> x \<noteq> [] \<Longrightarrow>
     filter (\<lambda>f. f \<noteq> []) (split_on sep (join_with sep xs)) = xs"
proof (induction sep xs rule: join_with.induct)
  case (1 sep)
  then show ?case by simp
next
  case (2 sep x)
  then show ?case by (simp add: split_on_no_sep)
next
  case (3 sep x y ys)
  then show ?case
    by (simp add: split_on_append split_on_no_sep)
qed

section \<open>Lemmas on path.Join\<close>

text \<open>The model of \<open>path.Clean\<close> on examples from the test table of the Go library.\<close>

lemma path_Clean_examples:
  "map path_Clean
     [[], ''abc'', ''abc/def'', ''.'', ''..'', ''../..'', ''../../abc'', ''/abc'', ''/'',
      ''abc/'', ''abc//def//ghi'', ''abc/./def'', ''/./abc/def'', ''abc/def/ghi/../jkl'',
      ''abc/def/../../..'', ''/abc/def/../../..'', ''abc/def/../../../ghi/jkl/../../../mno'',
      ''abc/./../def'', ''abc//./../def'', ''abc/../../././../def''] =
     [''.'', ''abc'', ''abc/def'', ''.'', ''..'', ''../..'', ''../../abc'', ''/abc'', ''/'',
      ''abc'', ''abc/def/ghi'', ''abc/def'', ''/abc/def'', ''abc/def/jkl'',
      ''..'', ''/'', ''../../mno'', ''def'', ''def'', ''../../def'']"
  by code_simp

lemma path_Join_examples:
  "map path_Join [[''a'', ''b''], [''a'', [], ''b''], [[], []], [''a/'', ''b''], [''/'', ''a'']] =
     [''a/b'', ''a/b'', [], ''a/b'', ''/a'']"
  by code_simp

lemma clean_step_inv:
  "clean_inv out \<Longrightarrow> CHR ''/'' \<notin> set seg \<Longrightarrow> clean_inv (clean_step rooted out seg)"
  by (auto simp: clean_inv_def clean_step_def dest: in_set_butlastD)

lemma foldl_clean_inv:
  "clean_inv out \<Longrightarrow> \<forall>seg\<in>set segs. CHR ''/'' \<notin> set seg \<Longrightarrow>
     clean_inv (foldl (clean_step rooted) out segs)"
  by (induction segs arbitrary: out) (auto simp: clean_step_inv)

lemma clean_stack_inv: "clean_inv (foldl (clean_step rooted) [] (split_on (CHR ''/'') p))"
  by (rule foldl_clean_inv) (auto simp: clean_inv_def dest: split_on_parts_no_sep)

lemma join_not_dot:
  "clean_inv out \<Longrightarrow> join_with (CHR ''/'') out \<noteq> ''.''"
proof (cases out)
  case Nil
  then show ?thesis by simp
next
  case (Cons x xs)
  assume I: "clean_inv out"
  show ?thesis
  proof (cases xs)
    case Nil
    with Cons I show ?thesis by (simp add: clean_inv_def)
  next
    case (Cons y ys)
    with \<open>out = x # xs\<close> I show ?thesis
      by (cases x) (auto simp: clean_inv_def)
  qed
qed

lemma join_not_slash:
  "clean_inv out \<Longrightarrow> join_with (CHR ''/'') out \<noteq> ''/''"
proof (cases out)
  case Nil
  then show ?thesis by simp
next
  case (Cons x xs)
  assume I: "clean_inv out"
  show ?thesis
  proof (cases xs)
    case Nil
    with Cons I show ?thesis by (auto simp: clean_inv_def)
  next
    case (Cons y ys)
    with \<open>out = x # xs\<close> I show ?thesis
      by (cases x) (auto simp: clean_inv_def)
  qed
qed

lemma rest_segments:
  assumes "endpoint_name e"
  shows "foldl (clean_step rooted) out (split_on (CHR ''/'') (''/rest//'' @ e)) = out @ [''rest'', e]"
  using assms by (simp add: endpoint_name_def split_on_no_sep clean_step_def)

lemma Join_buffer:
  "fold (\<lambda>e buf. if buf \<noteq> [] then buf @ CHR ''/'' # e else if e \<noteq> [] then e else buf)
      [p, ''/rest/'', e] [] = (if p = [] then ''/rest//'' @ e else p @ ''//rest//'' @ e)"
  by simp

lemma path_Join_rest:
  assumes "endpoint_name e"
  shows "path_Join [p, ''/rest/'', e] =
           (if p = [] \<or> path_Clean p = ''/'' then ''/rest/'' @ e
            else if path_Clean p = ''.'' then ''rest/'' @ e
            else path_Clean p @ ''/rest/'' @ e)"
proof (cases "p = []")
  case True
  have "path_Join [[], ''/rest/'', e] = path_Clean (''/rest//'' @ e)"
    by (simp add: path_Join_def)
  also have "\<dots> = ''/rest/'' @ e"
    using rest_segments [OF assms, of True "[]"] by (simp add: path_Clean_def)
  finally show ?thesis using True by simp
next
  case False
  define rooted where "rooted = (hd p = CHR ''/'')"
  define out where "out = foldl (clean_step rooted) [] (split_on (CHR ''/'') p)"
  have I: "clean_inv out"
    unfolding out_def by (rule clean_stack_inv)
  have J: "path_Join [p, ''/rest/'', e] = path_Clean (p @ CHR ''/'' # ''/rest//'' @ e)"
    using False by (simp add: path_Join_def)
  have S: "foldl (clean_step rooted) [] (split_on (CHR ''/'') (p @ CHR ''/'' # ''/rest//'' @ e))
      = out @ [''rest'', e]"
    unfolding split_on_append foldl_append out_def [symmetric]
    by (rule rest_segments [OF assms])
  have H: "hd (p @ CHR ''/'' # ''/rest//'' @ e) = hd p"
    using False by simp
  have R: "path_Join [p, ''/rest/'', e] =
      (if rooted then CHR ''/'' # join_with (CHR ''/'') (out @ [''rest'', e])
       else join_with (CHR ''/'') (out @ [''rest'', e]))"
    unfolding J path_Clean_def Let_def H rooted_def [symmetric] S
    using False by simp
  have C: "path_Clean p =
      (if rooted then CHR ''/'' # join_with (CHR ''/'') out
       else if out = [] then ''.'' else join_with (CHR ''/'') out)"
    using False by (simp add: path_Clean_def Let_def rooted_def out_def)
  show ?thesis
  proof (cases "out = []")
    case True
    with R C False show ?thesis by simp
  next
    case N: False
    have A: "join_with (CHR ''/'') (out @ [''rest'', e]) = join_with (CHR ''/'') out @ ''/rest/'' @ e"
      using join_with_snoc [of "out @ [''rest'']" "CHR ''/''" e] join_with_snoc [OF N, of "CHR ''/''" "''rest''"]
      by simp
    have B: "join_with (CHR ''/'') out \<noteq> []"
      using I N join_with_Nil_iff [of out "CHR ''/''"] by (auto simp: clean_inv_def)
    from A B R C False N join_not_dot [OF I] join_not_slash [OF I]
    show ?thesis by auto
  qed
qed

section \<open>Lemmas on the operations\<close>

lemma Request_client: "snd (Request lib s method endpoint params) = s"
  by (simp add: Request_def split: sum.splits option.splits)

lemma Get_client: "snd (Get lib s endpoint params) = s"
proof -
  obtain r s' where R: "Request lib s ''GET'' endpoint params = (r, s')"
    by (cases "Request lib s ''GET'' endpoint params")
  with Request_client [of lib s "''GET''" endpoint params] have "s' = s" by simp
  with R show ?thesis
    by (simp add: Get_def split: outcome.splits option.splits sum.splits prod.splits)
qed

lemma Ping_client: "snd (Ping lib s) = s"
proof -
  obtain r s' where R: "Request lib s ''GET'' ''ping'' [] = (r, s')"
    by (cases "Request lib s ''GET'' ''ping'' []")
  with Request_client [of lib s "''GET''" "''ping''" "[]"] have "s' = s" by simp
  with R show ?thesis
    by (simp add: Ping_def split: outcome.splits option.splits prod.splits)
qed

lemma salt_fold_invariant:
  "n \<le> length b \<Longrightarrow>
     length (fst (fold salt_step [0..<n] (b, g))) = length b \<and>
     (\<forall>j<n. fst (fold salt_step [0..<n] (b, g)) ! j \<in> set corpus)"
proof (induction n)
  case 0
  then show ?case by simp
next
  case (Suc n)
  obtain b' g' where F: "fold salt_step [0..<n] (b, g) = (b', g')"
    by (cases "fold salt_step [0..<n] (b, g)")
  from Suc F have L: "length b' = length b" and I: "\<forall>j<n. b' ! j \<in> set corpus"
    by auto
  obtain f p where G: "g' = Rng f p" by (cases g')
  have "length corpus = 62" by (simp add: corpus_def)
  then have C: "corpus ! (f p mod length corpus) \<in> set corpus"
    by (intro nth_mem) simp
  from Suc.prems L have N: "n < length b'" by simp
  have "fold salt_step [0..<Suc n] (b, g) =
          (b'[n := corpus ! (f p mod length corpus)], Rng f (Suc p))"
    by (simp add: F G salt_step_def)
  with L I C N show ?case
    by (auto simp: nth_list_update less_Suc_eq)
qed

lemma generateSalt_length: "length (fst (generateSalt g)) = 10"
  using salt_fold_invariant [of 10 "replicate 10 (char_of (0::nat))" g]
  by (simp add: generateSalt_def)

lemma generateSalt_alphabet: "set (fst (generateSalt g)) \<subseteq> set corpus"
proof
  fix c assume "c \<in> set (fst (generateSalt g))"
  then obtain j where "j < length (fst (generateSalt g))" "fst (generateSalt g) ! j = c"
    by (auto simp: in_set_conv_nth)
  with salt_fold_invariant [of 10 "replicate 10 (char_of (0::nat))" g]
  show "c \<in> set corpus"
    by (auto simp: generateSalt_def)
qed

lemma corpus_62: "length corpus = 62 \<and> distinct corpus"
  by (simp add: corpus_def)

lemma Authenticate_unfold:
  "Authenticate lib g s password =
     (case generateSalt g of (salt', g') \<Rightarrow>
        (case fst (Ping lib (s\<lparr>salt := salt', token := Sprintf_x (md5_Sum (password @ salt'))\<rparr>)) of
           Panic \<Rightarrow> (Panic, s\<lparr>salt := salt', token := Sprintf_x (md5_Sum (password @ salt'))\<rparr>, g')
         | Returns ok \<Rightarrow>
             (if ok then Returns None else Returns (Some (ErrorString ''Authentication failed'')),
              s\<lparr>salt := salt', token := Sprintf_x (md5_Sum (password @ salt'))\<rparr>, g')))"
proof -
  obtain salt' g' where S: "generateSalt g = (salt', g')"
    by (cases "generateSalt g")
  let ?s1 = "s\<lparr>salt := salt', token := Sprintf_x (md5_Sum (password @ salt'))\<rparr>"
  obtain r s2 where P: "Ping lib ?s1 = (r, s2)"
    by (cases "Ping lib ?s1")
  with Ping_client [of lib ?s1] have "s2 = ?s1" by simp
  with S P show ?thesis
    by (simp add: Authenticate_def io_WriteString_def md5_New_def split: outcome.splits)
qed

lemma example_build_ok:
  "BaseUrl c = ''http://host/music'' \<Longrightarrow>
     \<exists>req. build_request example_lib c method endpoint params = Inr req"
  by (simp add: build_request_def example_lib_def http_NewRequest_def Let_def)

lemma example_Request:
  assumes "BaseUrl c = ''http://host/music''" and "Client c = Some d"
  shows "\<exists>req. Request example_lib c method endpoint params =
           (case d req of
              Inl msg \<Rightarrow> (Returns (None, Some (UrlError msg)), c)
            | Inr resp \<Rightarrow> (Returns (Some resp, None), c))"
  using example_build_ok [OF assms(1), of "method" endpoint params] assms(2)
  by (auto simp: Request_def)

lemma example_Unmarshal_failed:
  "json_Unmarshal example_lib failed_body =
      Inr \<lparr>Response = Some \<lparr>Error = Some \<lparr>Code = 40, Message = ''Wrong username or password''\<rparr>,
                             Payload = [(''status'', ''failed'')]\<rparr>\<rparr>"
  by (simp add: example_lib_def)

lemma example_Request_rejecting:
  assumes "BaseUrl c = ''http://host/music''" and "Client c = Some rejecting_server"
  shows "Request example_lib c method endpoint params =
     (Returns (Some \<lparr>StatusCode = 200, Body = Inr failed_body\<rparr>, None), c)"
  using example_Request [OF assms, of "method" endpoint params]
  by (auto simp: rejecting_server_def)

lemma example_Request_refusing:
  assumes "BaseUrl c = ''http://host/music''" and "Client c = Some refusing_server"
  shows "Request example_lib c method endpoint params =
     (Returns (None, Some (UrlError ''connection refused'')), c)"
  using example_Request [OF assms, of "method" endpoint params]
  by (auto simp: refusing_server_def)

lemma example_Ping_rejecting:
  assumes "BaseUrl c = ''http://host/music''" and "Client c = Some rejecting_server"
  shows "fst (Ping example_lib c) = Returns True"
  by (simp add: Ping_def example_Request_rejecting [OF assms])

lemma example_Ping_refusing:
  assumes "BaseUrl c = ''http://host/music''" and "Client c = Some refusing_server"
  shows "fst (Ping example_lib c) = Returns False"
  by (simp add: Ping_def example_Request_refusing [OF assms])

lemma example_Get_rejecting:
  assumes "BaseUrl c = ''http://host/music''" and "Client c = Some rejecting_server"
  shows "fst (Get example_lib c endpoint params) =
     Returns (None, Some (Errorf_application 40 ''Wrong username or password''))"
  by (simp add: Get_def example_Request_rejecting [OF assms] example_Unmarshal_failed)

lemma example_client_fields:
  "BaseUrl example_client = ''http://host/music''"
  "Client example_client = Some rejecting_server"
  "salt example_client = ''0123456789''"
  "token example_client = ''stale''"
  by (simp_all add: example_client_def)

lemma Sprintf_d_40: "Sprintf_d 40 = ''40''"
  by code_simp

lemma Get_returns_payload:
  assumes "Request lib s ''GET'' endpoint params = (Returns (Some resp, None), s')"
    and "Body resp = Inr body"
    and "json_Unmarshal lib body = Inr parsed"
    and "Response parsed = Some r"
    and "Error r = None"
  shows "Get lib s endpoint params = (Returns (Some r, None), s')"
  using assms by (simp add: Get_def)

lemma Get_nil_Response:
  assumes "Request lib s ''GET'' endpoint params = (Returns (Some resp, None), s')"
    and "Body resp = Inr body"
    and "json_Unmarshal lib body = Inr parsed"
    and "Response parsed = None"
  shows "Get lib s endpoint params = (Panic, s')"
  using assms by (simp add: Get_def)

lemma Get_Unmarshal_error:
  assumes "Request lib s ''GET'' endpoint params = (Returns (Some resp, None), s')"
    and "Body resp = Inr body"
    and "json_Unmarshal lib body = Inl msg"
  shows "Get lib s endpoint params = (Returns (None, Some (JsonError msg)), s')"
  using assms by (simp add: Get_def)

lemma example_salt: "fst (generateSalt example_rng) = ''dkryFMT07e''"
  by code_simp

section \<open>Lemmas on query values\<close>

lemma lookup_Add:
  "Values_lookup (Values_Add q k v) k' =
     (if k' = k then Values_lookup q k @ [v] else Values_lookup q k')"
  by (induction q k v rule: Values_Add.induct) (auto simp: Values_lookup_def)

lemma lookup_fold_Add:
  "Values_lookup (fold (\<lambda>(key, val) q. Values_Add q key val) ps q) k =
     Values_lookup q k @ map snd (filter (\<lambda>kv. fst kv = k) ps)"
  by (induction ps arbitrary: q) (auto simp: lookup_Add split: prod.splits)

lemma filter_distinct_key:
  "distinct (map fst ps) \<Longrightarrow>
     map snd (filter (\<lambda>kv. fst kv = k) ps) = (case map_of ps k of None \<Rightarrow> [] | Some v \<Rightarrow> [v])"
proof (induction ps)
  case Nil
  then show ?case by simp
next
  case (Cons p ps)
  obtain k' v' where P: "p = (k', v')" by (cases p)
  show ?case
  proof (cases "k' = k")
    case True
    with Cons.prems P have "k \<notin> fst ` set ps" by auto
    then have "filter (\<lambda>kv. fst kv = k) ps = []"
      by (auto simp: filter_empty_conv)
    with True P show ?thesis by simp
  next
    case False
    with Cons P show ?thesis by simp
  qed
qed

lemma lookup_key: "Values_lookup q k \<noteq> [] \<Longrightarrow> k \<in> fst ` set q"
  by (auto simp: Values_lookup_def split: option.splits dest: map_of_SomeD intro: rev_image_eqI)

lemma unreserved_special:
  "\<not> unreserved (CHR ''='')" "\<not> unreserved (CHR ''&'')" "\<not> unreserved (CHR ''+'')"
  "\<not> unreserved (CHR ''%'')" "\<not> unreserved (CHR '' '')"
  by (simp_all add: unreserved_def)
lemma upper_hex_digit_plain:
  "upper_hex_digit n \<noteq> CHR ''='' \<and> upper_hex_digit n \<noteq> CHR ''&''"
proof -
  have "upper_hex_digit n \<in> set ''0123456789ABCDEF''"
    unfolding upper_hex_digit_def by (rule nth_mem) simp
  then show ?thesis by auto
qed
lemma escape_byte_plain:
  assumes "x \<in> set (escape_byte c)"
  shows "x \<noteq> CHR ''='' \<and> x \<noteq> CHR ''&''"
proof (cases "unreserved c")
  case True
  with assms unreserved_special show ?thesis
    by (auto simp: escape_byte_def)
next
  case False
  with assms have "x = CHR ''+'' \<or> x = CHR ''%'' \<or> x = upper_hex_digit (of_char c div 16)
      \<or> x = upper_hex_digit (of_char c mod 16)"
    by (auto simp: escape_byte_def split: if_splits)
  with upper_hex_digit_plain [of "of_char c div 16"] upper_hex_digit_plain [of "of_char c mod 16"]
  show ?thesis
    by auto
qed
lemma upper_hex_digits: "\<forall>m \<in> set [0..<16]. hex_value (upper_hex_digit m) = m"
  by (simp add: upt_rec hex_value_def upper_hex_digit_def)

lemma hex_value_upper: "hex_value (upper_hex_digit n) = n mod 16"
proof -
  have "n mod 16 \<in> set [0..<16]" by simp
  with upper_hex_digits have "hex_value (upper_hex_digit (n mod 16)) = n mod 16"
    by blast
  then show ?thesis by (simp add: upper_hex_digit_def)
qed

lemma QueryEscape_plain:
  "CHR ''='' \<notin> set (QueryEscape s) \<and> CHR ''&'' \<notin> set (QueryEscape s)"
  using escape_byte_plain by (auto simp: QueryEscape_def)

lemma unescape_byte: "QueryUnescape (escape_byte c @ rest) = c # QueryUnescape rest"
proof (cases "unreserved c")
  case True
  with unreserved_special have "c \<noteq> CHR ''+''" "c \<noteq> CHR ''%''" by auto
  with True show ?thesis by (simp add: escape_byte_def)
next
  case False
  have "char_of (16 * (of_char c div 16 mod 16) + of_char c mod 16 mod 16 :: nat) = c"
  proof -
    have "(of_char c :: nat) < 256" by simp
    then have "(of_char c :: nat) div 16 < 16"
      by (intro less_mult_imp_div_less) simp
    then have "16 * (of_char c div 16 mod 16) + of_char c mod 16 mod 16 = (of_char c :: nat)"
      by simp
    then show ?thesis by simp
  qed
  with False show ?thesis
    by (simp add: escape_byte_def hex_value_upper)
qed

lemma QueryUnescape_QueryEscape: "QueryUnescape (QueryEscape s) = s"
  by (induction s) (simp_all add: QueryEscape_def unescape_byte)

lemma field_key_pair: "field_key (query_pair k v) = QueryEscape k"
  using QueryEscape_plain [of k]
  by (simp add: field_key_def query_pair_def takeWhile_append)

lemma field_value_pair: "field_value (query_pair k v) = QueryEscape v"
  using QueryEscape_plain [of k]
  by (simp add: field_value_def query_pair_def dropWhile_append)

lemma query_pair_plain: "CHR ''&'' \<notin> set (query_pair k v) \<and> query_pair k v \<noteq> []"
  using QueryEscape_plain [of k] QueryEscape_plain [of v]
  by (simp add: query_pair_def)

lemma query_fields_Encode: "query_fields (Values_Encode q) = Encode_pairs q"
  unfolding query_fields_def Values_Encode_def
  by (rule split_on_join_with) (auto simp: Encode_pairs_def query_pair_plain)

lemma query_pairs_Encode: "query_pairs (Values_Encode q) = Values_pairs q"
  by (simp add: query_pairs_def query_fields_Encode Encode_pairs_def Values_pairs_def
      map_concat comp_def field_key_pair field_value_pair QueryUnescape_QueryEscape)

lemma concat_single_key:
  "distinct ks \<Longrightarrow>
     concat (map (\<lambda>k'. if k' = k then xs else []) ks) = (if k \<in> set ks then xs else [])"
  by (induction ks) auto

lemma Values_pairs_key:
  "map snd (filter (\<lambda>kv. fst kv = k) (Values_pairs q)) = Values_lookup q k"
proof -
  let ?ks = "sort (remdups (map fst q))"
  have D: "distinct ?ks" by simp
  have "map snd (filter (\<lambda>kv. fst kv = k) (Values_pairs q)) =
      concat (map (\<lambda>k'. if k' = k then Values_lookup q k else []) ?ks)"
  proof -
    have "\<And>x. filter (\<lambda>v. x = k) (Values_lookup q x) = (if x = k then Values_lookup q k else [])"
      by auto
    then show ?thesis
      unfolding Values_pairs_def
      by (simp add: filter_concat map_concat comp_def filter_map)
  qed
  also have "\<dots> = (if k \<in> set ?ks then Values_lookup q k else [])"
    by (rule concat_single_key [OF D])
  also have "\<dots> = Values_lookup q k"
  proof (cases "Values_lookup q k = []")
    case True
    then show ?thesis by simp
  next
    case False
    then have "k \<in> fst ` set q" by (rule lookup_key)
    then show ?thesis by simp
  qed
  finally show ?thesis .
qed

lemma Values_pairs_set:
  "set (Values_pairs q) = {(k, v). v \<in> set (Values_lookup q k)}"
proof (intro set_eqI iffI)
  fix kv assume "kv \<in> set (Values_pairs q)"
  then show "kv \<in> {(k, v). v \<in> set (Values_lookup q k)}"
    by (auto simp: Values_pairs_def)
next
  fix kv assume "kv \<in> {(k, v). v \<in> set (Values_lookup q k)}"
  then obtain k v where KV: "kv = (k, v)" and V: "v \<in> set (Values_lookup q k)"
    by auto
  from V have "Values_lookup q k \<noteq> []" by auto
  then have "k \<in> fst ` set q" by (rule lookup_key)
  with V KV show "kv \<in> set (Values_pairs q)"
    by (simp add: Values_pairs_def) blast
qed

section \<open>Lemmas on the built request\<close>

lemma build_request_Inr:
  assumes "build_request lib s method endpoint params = Inr req"
  obtains u where "url_Parse lib (BaseUrl s) = Inr u"
    and "URL req = u\<lparr>Path := path_Join [Path u, ''/rest/'', endpoint],
                      RawQuery := Values_Encode
                        (fold (\<lambda>(key, val) q. Values_Add q key val) (mandated s @ params)
                           (url_Query lib (RawQuery u)))\<rparr>"
    and "Method req = (if method = [] then ''GET'' else method)"
  using assms
  by (auto simp: build_request_def http_NewRequest_def mandated_def Let_def
      split: sum.splits option.splits)

lemma built_query_pairs:
  assumes "build_request lib s method endpoint params = Inr req"
    and "url_Parse lib (BaseUrl s) = Inr u"
  shows "map snd (filter (\<lambda>kv. fst kv = k) (query_pairs (RawQuery (URL req)))) =
           Values_lookup (url_Query lib (RawQuery u)) k
             @ map snd (filter (\<lambda>kv. fst kv = k) (mandated s @ params))"
proof -
  from assms(1) obtain u' where U: "url_Parse lib (BaseUrl s) = Inr u'"
    and R: "URL req = u'\<lparr>Path := path_Join [Path u', ''/rest/'', endpoint],
                      RawQuery := Values_Encode
                        (fold (\<lambda>(key, val) q. Values_Add q key val) (mandated s @ params)
                           (url_Query lib (RawQuery u')))\<rparr>"
    by (rule build_request_Inr)
  from U assms(2) have "u' = u" by simp
  with R show ?thesis
    by (simp add: query_pairs_Encode Values_pairs_key lookup_fold_Add)
qed

lemma built_query_member:
  assumes "build_request lib s method endpoint params = Inr req"
    and "kv \<in> set (mandated s @ params)"
  shows "kv \<in> set (query_pairs (RawQuery (URL req)))"
proof -
  obtain k v where KV: "kv = (k, v)" by (cases kv)
  from assms(1) obtain u where U: "url_Parse lib (BaseUrl s) = Inr u"
    by (rule build_request_Inr)
  let ?P = "query_pairs (RawQuery (URL req))"
  from assms(2) KV have "v \<in> set (map snd (filter (\<lambda>kv. fst kv = k) (mandated s @ params)))"
    by force
  then have "v \<in> set (map snd (filter (\<lambda>kv. fst kv = k) ?P))"
    unfolding built_query_pairs [OF assms(1) U] by simp
  with KV show ?thesis by auto
qed

lemma mandated_single:
  "(k, m) \<in> set (mandated s) \<Longrightarrow> map snd (filter (\<lambda>kv. fst kv = k) (mandated s)) = [m]"
  by (auto simp: mandated_def)

lemma example_build_params:
  "build_request example_lib example_client ''GET'' ''getAlbum'' [(''t'', ''forged''), (''id'', ''a b'')] =
     Inr \<lparr>Method = ''GET'',
          URL = \<lparr>Scheme = ''http'', Host = ''host'', Path = ''/music/rest/getAlbum'',
                 RawQuery = ''c=player&f=json&id=a+b&s=0123456789&t=stale&t=forged&u=alice&v=1.8.0''\<rparr>\<rparr>"
  apply (simp add: build_request_def example_lib_def example_client_def http_NewRequest_def
      supportedApiVersion_def)
  apply code_simp
  done

lemma path_Clean_music: "path_Clean ''/music'' = ''/music''"
  by (simp add: path_Clean_def clean_step_def)

lemma first_value_filter:
  "first_value ps k =
     (case map snd (filter (\<lambda>kv. fst kv = k) ps) of [] \<Rightarrow> None | v # _ \<Rightarrow> Some v)"
  unfolding first_value_def by (induction ps) auto

lemma last_value_filter:
  "last_value ps k =
     (case rev (map snd (filter (\<lambda>kv. fst kv = k) ps)) of [] \<Rightarrow> None | v # _ \<Rightarrow> Some v)"
proof -
  have "last_value ps k = first_value (rev ps) k"
    by (simp add: last_value_def first_value_def)
  then show ?thesis
    by (simp add: first_value_filter rev_map rev_filter)
qed

lemma build_request_params_failure:
  "build_request lib s method endpoint params = Inl err \<Longrightarrow>
     build_request lib s method endpoint ps = Inl err"
  by (auto simp: build_request_def Let_def split: sum.splits)

lemma built_query_readers:
  assumes "build_request lib s method endpoint params = Inr req"
    and "url_Parse lib (BaseUrl s) = Inr u"
    and "distinct (map fst params)"
    and "(k, m) \<in> set (mandated s)"
  shows "map snd (filter (\<lambda>kv. fst kv = k) (query_pairs (RawQuery (URL req)))) =
           Values_lookup (url_Query lib (RawQuery u)) k
             @ m # (case map_of params k of None \<Rightarrow> [] | Some v \<Rightarrow> [v])"
    and "first_value (query_pairs (RawQuery (URL req))) k =
           Some (case Values_lookup (url_Query lib (RawQuery u)) k of [] \<Rightarrow> m | b # _ \<Rightarrow> b)"
    and "last_value (query_pairs (RawQuery (URL req))) k =
           Some (case map_of params k of None \<Rightarrow> m | Some v \<Rightarrow> v)"
proof -
  show V: "map snd (filter (\<lambda>kv. fst kv = k) (query_pairs (RawQuery (URL req)))) =
      Values_lookup (url_Query lib (RawQuery u)) k
        @ m # (case map_of params k of None \<Rightarrow> [] | Some v \<Rightarrow> [v])"
    using built_query_pairs [OF assms(1,2), of k] mandated_single [OF assms(4)]
      filter_distinct_key [OF assms(3), of k]
    by simp
  show "first_value (query_pairs (RawQuery (URL req))) k =
      Some (case Values_lookup (url_Query lib (RawQuery u)) k of [] \<Rightarrow> m | b # _ \<Rightarrow> b)"
    unfolding first_value_filter V by (simp split: list.splits)
  show "last_value (query_pairs (RawQuery (URL req))) k =
      Some (case map_of params k of None \<Rightarrow> m | Some v \<Rightarrow> v)"
    unfolding last_value_filter V by (simp split: option.splits)
qed

lemma example_parse:
  "url_Parse example_lib (BaseUrl example_client) =
      Inr \<lparr>Scheme = ''http'', Host = ''host'', Path = ''/music'', RawQuery = []\<rparr>"
  by (simp add: example_lib_def example_client_def)

lemma example_no_base_query: "Values_lookup (url_Query example_lib raw) k = []"
  by (simp add: example_lib_def Values_lookup_def)

lemma example_mandated_token: "(''t'', ''stale'') \<in> set (mandated example_client)"
  by (simp add: mandated_def example_client_def)

section \<open>Lemmas on the token\<close>

lemma md5_Sum_length: "length (md5_Sum h) = 16"
  by (cases "md5_digest h") (simp add: md5_Sum_def md5_bytes_def le_bytes_def)

lemma Sprintf_x_length: "length (Sprintf_x bs) = 2 * length bs"
  by (induction bs) (simp_all add: Sprintf_x_def)

lemma hex_digit_lower: "hex_digit n \<in> set ''0123456789abcdef''"
  unfolding hex_digit_def by (rule nth_mem) simp

lemma Sprintf_x_digits: "set (Sprintf_x bs) \<subseteq> set ''0123456789abcdef''"
proof -
  have "c \<in> set ''0123456789abcdef''" if "c \<in> set (Sprintf_x bs)" for c
  proof -
    from that obtain n where "c = hex_digit n"
      by (auto simp: Sprintf_x_def)
    then show ?thesis by (simp only: hex_digit_lower)
  qed
  then show ?thesis by blast
qed

lemma Authenticate_client:
  "fst (snd (Authenticate lib g s password)) =
     s\<lparr>salt := fst (generateSalt g),
       token := Sprintf_x (md5_Sum (password @ fst (generateSalt g)))\<rparr>"
  by (simp add: Authenticate_unfold split: prod.splits outcome.splits)

text \<open>The model of MD5 on test vectors of RFC 1321.\<close>

lemma md5_empty: "Sprintf_x (md5_Sum []) = ''d41d8cd98f00b204e9800998ecf8427e''"
  by code_simp

lemma md5_abc: "Sprintf_x (md5_Sum ''abc'') = ''900150983cd24fb0d6963f7d28e17f72''"
  by code_simp

lemma md5_two_blocks:
  "Sprintf_x (md5_Sum
     ''12345678901234567890123456789012345678901234567890123456789012345678901234567890'') =
   ''57edf4a22be3c955ac49da2e2107b67a''"
  by code_simp

lemma md5_example: "Sprintf_x (md5_Sum ''sesamedkryFMT07e'') = ''0d3e388b3d88a68364ef4dc0a386ce90''"
  by code_simp

section \<open>The claims\<close>

text \<open>
  C1. When the decoded envelope of the response body holds a nested object with an error
  record, \<open>Get\<close> returns a nil payload and the error \<open>Error #<code>: <message>\<close>
  built from the code and the message of that record, whatever else the nested object
  holds; the client is left as it was.
\<close>

theorem Get_application_error:
  assumes "Request lib s ''GET'' endpoint params = (Returns (Some resp, None), s')"
    and "Body resp = Inr body"
    and "json_Unmarshal lib body = Inr parsed"
    and "Response parsed = Some r"
    and "Error r = Some e"
  shows "Get lib s endpoint params =
           (Returns (None, Some (ErrorString
              (''Error #'' @ Sprintf_d (Code e) @ '': '' @ Message e @ [CHR 0x0A]))), s')"
  using assms by (simp add: Get_def Errorf_application_def)

text \<open>
  C1, at the envelope of a rejected login: the error reads
  \<open>Error #40: Wrong username or password\<close>, and the payload is nil.
\<close>

theorem Get_application_error_witness:
  "Get example_lib example_client ''getLicense'' [] =
     (Returns (None, Some (ErrorString (''Error #40: Wrong username or password'' @ [CHR 0x0A]))),
      example_client)"
proof -
  have R: "Request example_lib example_client ''GET'' ''getLicense'' [] =
     (Returns (Some \<lparr>StatusCode = 200, Body = Inr failed_body\<rparr>, None), example_client)"
    by (rule example_Request_rejecting) (simp_all add: example_client_fields)
  have B: "Body \<lparr>StatusCode = 200, Body = Inr failed_body\<rparr> = Inr failed_body"
    by simp
  show ?thesis
    using Get_application_error [OF R B example_Unmarshal_failed]
    by (simp add: Sprintf_d_40)
qed

text \<open>
  C2. A body that \<open>json.Unmarshal\<close> rejects makes \<open>Get\<close> return that error
  (\<open>Get_Unmarshal_error\<close>). A body that is valid JSON without the wrapper key, such
  as the empty object, is decoded without error and leaves the \<open>Response\<close> pointer
  nil; \<open>Get\<close> then reads \<open>resp.Error\<close> through the nil pointer and panics, where
  the claim asks for a parse error.
\<close>

theorem Get_panics_without_wrapper:
  "fst (Get example_lib (example_client\<lparr>Client := Some empty_object_server\<rparr>) ''getLicense'' [])
     = Panic"
proof -
  let ?c = "example_client\<lparr>Client := Some empty_object_server\<rparr>"
  have R: "Request example_lib ?c ''GET'' ''getLicense'' [] =
      (Returns (Some \<lparr>StatusCode = 200, Body = Inr ''{}''\<rparr>, None), ?c)"
    using example_Request [of ?c empty_object_server "''GET''" "''getLicense''" "[]"]
    by (auto simp: example_client_def empty_object_server_def)
  have B: "Body \<lparr>StatusCode = 200, Body = Inr ''{}''\<rparr> = Inr ''{}''"
    by simp
  have U: "json_Unmarshal example_lib ''{}'' = Inr \<lparr>Response = None\<rparr>"
    by (simp add: example_lib_def failed_body_def ok_body_def)
  show ?thesis
    using Get_nil_Response [OF R B U] by simp
qed

text \<open>
  C3. \<open>Authenticate\<close> tests the new credentials with \<open>Ping\<close>, which does not read
  the response. Against a server that answers every request with the envelope of error
  40 (wrong username or password), \<open>Authenticate\<close> returns nil, and a \<open>Get\<close> with
  the client it leaves is answered with that error.
\<close>

theorem Authenticate_accepts_rejected_login:
  "fst (Authenticate example_lib example_rng example_client ''wrong password'') = Returns None \<and>
   fst (Get example_lib
          (fst (snd (Authenticate example_lib example_rng example_client ''wrong password'')))
          ''getLicense'' []) =
     Returns (None, Some (Errorf_application 40 ''Wrong username or password''))"
  by (simp add: Authenticate_unfold example_Ping_rejecting example_Get_rejecting
      example_client_fields split: prod.splits)

text \<open>
  C4, as the code has it. With a transport handle that is not nil, \<open>Ping\<close> never
  panics and returns false exactly when the request cannot be built or the transport
  fails; it returns true for every response, whatever its body.
\<close>

theorem Ping_reports_Request:
  assumes "Client s = Some do"
  shows "fst (Ping lib s) =
           Returns (case build_request lib s ''GET'' ''ping'' [] of
                      Inl err \<Rightarrow> False
                    | Inr req \<Rightarrow> (case do req of Inl msg \<Rightarrow> False | Inr resp \<Rightarrow> True))"
  using assms by (simp add: Ping_def Request_def split: sum.splits)

text \<open>
  C4, against a server that refuses the connection: \<open>Ping\<close> returns false.
\<close>

theorem Ping_reports_Request_witness:
  "fst (Ping example_lib (example_client\<lparr>Client := Some refusing_server\<rparr>)) = Returns False"
proof -
  let ?c = "example_client\<lparr>Client := Some refusing_server\<rparr>"
  have C: "Client ?c = Some refusing_server" by simp
  obtain req where B: "build_request example_lib ?c ''GET'' ''ping'' [] = Inr req"
    using example_build_ok [of ?c "''GET''" "''ping''" "[]"]
    by (auto simp: example_client_def)
  show ?thesis
    using Ping_reports_Request [OF C, of example_lib]
    by (simp add: B refusing_server_def)
qed

text \<open>
  C4, as claimed, fails: the server reports an application error (\<open>Get\<close> at the
  same endpoint returns it), and \<open>Ping\<close> returns true.
\<close>

theorem Ping_true_on_application_error:
  "fst (Ping example_lib example_client) = Returns True \<and>
   fst (Get example_lib example_client ''ping'' []) =
     Returns (None, Some (Errorf_application 40 ''Wrong username or password''))"
  by (simp add: example_Ping_rejecting example_Get_rejecting example_client_fields)

text \<open>
  C5. The query of every request that \<open>Request\<close> builds holds, as a server reads it,
  the pairs \<open>f=json\<close>, \<open>v=1.8.0\<close>, \<open>c\<close>, \<open>u\<close>, \<open>t\<close> and \<open>s\<close> with the
  client name, the user, the token and the salt, and every pair of \<open>params\<close> with
  its value as the caller gave it.
\<close>

theorem Request_query_mandated_and_params:
  assumes "build_request lib s method endpoint params = Inr req"
  shows "(''f'', ''json'') \<in> set (query_pairs (RawQuery (URL req))) \<and>
         (''v'', ''1.8.0'') \<in> set (query_pairs (RawQuery (URL req))) \<and>
         (''c'', ClientName s) \<in> set (query_pairs (RawQuery (URL req))) \<and>
         (''u'', User s) \<in> set (query_pairs (RawQuery (URL req))) \<and>
         (''t'', token s) \<in> set (query_pairs (RawQuery (URL req))) \<and>
         (''s'', salt s) \<in> set (query_pairs (RawQuery (URL req))) \<and>
         set params \<subseteq> set (query_pairs (RawQuery (URL req)))"
proof -
  have "kv \<in> set (query_pairs (RawQuery (URL req)))" if "kv \<in> set (mandated s @ params)" for kv
    using assms that by (rule built_query_member)
  then show ?thesis
    by (simp add: mandated_def supportedApiVersion_def subset_iff)
qed

text \<open>
  C5, for \<open>getAlbum\<close> with the parameters \<open>t=forged\<close> and \<open>id=a b\<close>: the query is
  \<open>c=player&f=json&id=a+b&s=0123456789&t=stale&t=forged&u=alice&v=1.8.0\<close>.
\<close>

theorem Request_query_mandated_and_params_witness:
  "build_request example_lib example_client ''GET'' ''getAlbum''
       [(''t'', ''forged''), (''id'', ''a b'')] =
     Inr \<lparr>Method = ''GET'',
          URL = \<lparr>Scheme = ''http'', Host = ''host'', Path = ''/music/rest/getAlbum'',
                 RawQuery = ''c=player&f=json&id=a+b&s=0123456789&t=stale&t=forged&u=alice&v=1.8.0''\<rparr>\<rparr> \<and>
   (''f'', ''json'') \<in> set (query_pairs ''c=player&f=json&id=a+b&s=0123456789&t=stale&t=forged&u=alice&v=1.8.0'') \<and>
   (''id'', ''a b'') \<in> set (query_pairs ''c=player&f=json&id=a+b&s=0123456789&t=stale&t=forged&u=alice&v=1.8.0'')"
  using Request_query_mandated_and_params [OF example_build_params] example_build_params
  by simp

text \<open>
  C6, as the code has it. The builder does not reject a call for its parameters: when
  no request is built, none is built without parameters either. For a mandated key the
  built query carries, in this order, the values of that key in the query of the base
  URL, the mandated value, and the value the caller gave for that key, if any. A server
  that reads the first value of the key gets the mandated value, unless the base URL
  has a value of its own for it; a server that reads the last value gets the caller's
  value, if there is one.
\<close>

theorem collision_sends_mandated_then_caller:
  assumes "url_Parse lib (BaseUrl s) = Inr u"
    and "distinct (map fst params)"
    and "(k, m) \<in> set (mandated s)"
  shows "case build_request lib s method endpoint params of
           Inl err \<Rightarrow> build_request lib s method endpoint [] = Inl err
         | Inr req \<Rightarrow>
             map snd (filter (\<lambda>kv. fst kv = k) (query_pairs (RawQuery (URL req)))) =
               Values_lookup (url_Query lib (RawQuery u)) k
                 @ m # (case map_of params k of None \<Rightarrow> [] | Some v \<Rightarrow> [v]) \<and>
             first_value (query_pairs (RawQuery (URL req))) k =
               Some (case Values_lookup (url_Query lib (RawQuery u)) k of
                       [] \<Rightarrow> m | b # _ \<Rightarrow> b) \<and>
             last_value (query_pairs (RawQuery (URL req))) k =
               Some (case map_of params k of None \<Rightarrow> m | Some v \<Rightarrow> v)"
proof (cases "build_request lib s method endpoint params")
  case (Inl err)
  then have "build_request lib s method endpoint [] = Inl err"
    by (rule build_request_params_failure)
  with Inl show ?thesis by simp
next
  case (Inr req)
  with built_query_readers [OF Inr assms] show ?thesis by simp
qed

text \<open>
  C6, for a caller who passes \<open>t=forged\<close>: the values of \<open>t\<close> are the token of the
  client and then \<open>forged\<close>, and the first value is the token.
\<close>

theorem collision_sends_mandated_then_caller_witness:
  "token example_client = ''stale'' \<and>
   map snd (filter (\<lambda>kv. fst kv = ''t'')
      (query_pairs ''c=player&f=json&id=a+b&s=0123456789&t=stale&t=forged&u=alice&v=1.8.0''))
     = [''stale'', ''forged''] \<and>
   first_value
      (query_pairs ''c=player&f=json&id=a+b&s=0123456789&t=stale&t=forged&u=alice&v=1.8.0'') ''t''
     = Some ''stale''"
proof -
  have D: "distinct (map fst [(''t'', ''forged''), (''id'', ''a b'')])"
    by simp
  note T = collision_sends_mandated_then_caller [OF example_parse D example_mandated_token,
      of "''GET''" "''getAlbum''", unfolded example_build_params sum.case]
  then show ?thesis
    by (simp add: example_no_base_query example_client_fields)
qed

text \<open>
  C6, as claimed, fails: the call with \<open>t=forged\<close> is not rejected, the query carries
  the caller's value beside the token, and a server that reads the last value of \<open>t\<close>
  gets \<open>forged\<close>.
\<close>

theorem caller_value_is_last_value:
  "build_request example_lib example_client ''GET'' ''getAlbum''
       [(''t'', ''forged''), (''id'', ''a b'')] =
     Inr \<lparr>Method = ''GET'',
          URL = \<lparr>Scheme = ''http'', Host = ''host'', Path = ''/music/rest/getAlbum'',
                 RawQuery = ''c=player&f=json&id=a+b&s=0123456789&t=stale&t=forged&u=alice&v=1.8.0''\<rparr>\<rparr> \<and>
   (''t'', ''stale'') \<in> set (mandated example_client) \<and>
   (''t'', ''forged'') \<in> set
      (query_pairs ''c=player&f=json&id=a+b&s=0123456789&t=stale&t=forged&u=alice&v=1.8.0'') \<and>
   last_value
      (query_pairs ''c=player&f=json&id=a+b&s=0123456789&t=stale&t=forged&u=alice&v=1.8.0'') ''t''
     = Some ''forged''"
proof -
  have D: "distinct (map fst [(''t'', ''forged''), (''id'', ''a b'')])"
    by simp
  have L: "last_value
      (query_pairs ''c=player&f=json&id=a+b&s=0123456789&t=stale&t=forged&u=alice&v=1.8.0'') ''t''
     = Some ''forged''"
    using built_query_readers(3) [OF example_build_params example_parse D example_mandated_token]
    by simp
  have "(''t'', ''forged'') \<in> set (mandated example_client @ [(''t'', ''forged''), (''id'', ''a b'')])"
    by simp
  from built_query_member [OF example_build_params this]
  have F: "(''t'', ''forged'') \<in> set
      (query_pairs ''c=player&f=json&id=a+b&s=0123456789&t=stale&t=forged&u=alice&v=1.8.0'')"
    by simp
  from example_build_params example_mandated_token F L show ?thesis
    by (simp only: simp_thms)
qed

text \<open>
  C7, as the code has it. \<open>Authenticate\<close> stores the salt that \<open>generateSalt\<close>
  draws, 10 characters of the 62 distinct characters of the corpus, and the token, the
  32 lowercase hexadecimal digits of the 16 bytes of the MD5 digest of the password
  followed by that salt.
\<close>

theorem Authenticate_salt_and_token:
  "salt (fst (snd (Authenticate lib g s password))) = fst (generateSalt g) \<and>
   length (fst (generateSalt g)) = 10 \<and>
   set (fst (generateSalt g)) \<subseteq> set corpus \<and>
   length corpus = 62 \<and> distinct corpus \<and>
   token (fst (snd (Authenticate lib g s password))) =
     Sprintf_x (md5_Sum (password @ fst (generateSalt g))) \<and>
   length (md5_Sum (password @ fst (generateSalt g))) = 16 \<and>
   length (token (fst (snd (Authenticate lib g s password)))) = 32 \<and>
   set (token (fst (snd (Authenticate lib g s password)))) \<subseteq> set ''0123456789abcdef''"
  using generateSalt_length [of g] generateSalt_alphabet [of g] corpus_62
    Sprintf_x_digits [of "md5_Sum (password @ fst (generateSalt g))"]
  by (simp add: Authenticate_client md5_Sum_length Sprintf_x_length)

text \<open>
  C7, for the password \<open>sesame\<close> and the draws of the example: the salt is
  \<open>dkryFMT07e\<close> and the token is the MD5 digest of \<open>sesamedkryFMT07e\<close>.
\<close>

theorem Authenticate_salt_and_token_witness:
  "salt (fst (snd (Authenticate example_lib example_rng example_client ''sesame''))) = ''dkryFMT07e'' \<and>
   token (fst (snd (Authenticate example_lib example_rng example_client ''sesame''))) =
     ''0d3e388b3d88a68364ef4dc0a386ce90''"
  using Authenticate_salt_and_token [of example_lib example_rng example_client "''sesame''"]
  by (simp add: example_salt md5_example)

text \<open>
  C7, as claimed, fails in its last part: there are two different passwords that get
  the same token with the same salt, since the passwords are infinitely many and the
  digests are not.
\<close>

theorem token_collision:
  "\<not> (\<forall>p p'. p \<noteq> p' \<longrightarrow>
        token (fst (snd (Authenticate example_lib example_rng example_client p))) \<noteq>
        token (fst (snd (Authenticate example_lib example_rng example_client p'))))"
proof
  assume A: "\<forall>p p'. p \<noteq> p' \<longrightarrow>
        token (fst (snd (Authenticate example_lib example_rng example_client p))) \<noteq>
        token (fst (snd (Authenticate example_lib example_rng example_client p')))"
  define f where "f p = md5_digest (p @ fst (generateSalt example_rng))" for p
  have T: "token (fst (snd (Authenticate example_lib example_rng example_client p))) =
      Sprintf_x (md5_bytes (f p))" for p
    by (simp add: Authenticate_client f_def md5_Sum_def)
  have "inj f"
  proof (rule injI)
    fix p p' assume "f p = f p'"
    then have "token (fst (snd (Authenticate example_lib example_rng example_client p))) =
        token (fst (snd (Authenticate example_lib example_rng example_client p')))"
      by (simp only: T)
    with A show "p = p'" by blast
  qed
  moreover have "finite (range f)"
    by (rule finite_subset [of _ UNIV]) simp_all
  ultimately have "finite (UNIV :: string set)"
    by (rule finite_imageD [rotated])
  then show False
    using infinite_UNIV_listI by blast
qed

text \<open>
  C8. For a base URL that parses and an endpoint name, the path of the built request is
  the cleaned path of the base URL followed by \<open>/rest/\<close> and the endpoint (without a
  doubled slash after a base path that is empty or the root, and without the dot of an
  empty relative path); scheme and host are those of the base URL.
\<close>

theorem Request_path_joins_rest_endpoint:
  assumes "build_request lib s method endpoint params = Inr req"
    and "url_Parse lib (BaseUrl s) = Inr u"
    and "endpoint_name endpoint"
  shows "Path (URL req) =
           (if Path u = [] \<or> path_Clean (Path u) = ''/'' then ''/rest/'' @ endpoint
            else if path_Clean (Path u) = ''.'' then ''rest/'' @ endpoint
            else path_Clean (Path u) @ ''/rest/'' @ endpoint) \<and>
         Scheme (URL req) = Scheme u \<and> Host (URL req) = Host u"
proof -
  from assms(1) obtain u' where U: "url_Parse lib (BaseUrl s) = Inr u'"
    and R: "URL req = u'\<lparr>Path := path_Join [Path u', ''/rest/'', endpoint],
                      RawQuery := Values_Encode
                        (fold (\<lambda>(key, val) q. Values_Add q key val) (mandated s @ params)
                           (url_Query lib (RawQuery u')))\<rparr>"
    by (rule build_request_Inr)
  from U assms(2) have "u' = u" by simp
  with R path_Join_rest [OF assms(3), of "Path u"] show ?thesis
    by simp
qed

text \<open>
  C8, for the base URL \<open>http://host/music\<close> and the endpoint \<open>ping\<close>: the request
  goes to \<open>http://host\<close> with the path \<open>/music/rest/ping\<close>.
\<close>

theorem Request_path_joins_rest_endpoint_witness:
  "\<exists>req. build_request example_lib example_client ''GET'' ''ping'' [] = Inr req \<and>
         BaseUrl example_client = ''http://host/music'' \<and>
         Scheme (URL req) = ''http'' \<and> Host (URL req) = ''host'' \<and>
         Path (URL req) = ''/music/rest/ping''"
proof -
  obtain req where B: "build_request example_lib example_client ''GET'' ''ping'' [] = Inr req"
    using example_build_ok [of example_client "''GET''" "''ping''" "[]"]
    by (auto simp: example_client_def)
  have U: "url_Parse example_lib (BaseUrl example_client) =
      Inr \<lparr>Scheme = ''http'', Host = ''host'', Path = ''/music'', RawQuery = []\<rparr>"
    by (simp add: example_lib_def example_client_def)
  have E: "endpoint_name ''ping''"
    by (simp add: endpoint_name_def)
  show ?thesis
    using Request_path_joins_rest_endpoint [OF B U E] B
    by (simp add: path_Clean_music example_client_def)
qed

text \<open>
  C9. When \<open>Authenticate\<close> returns an error, the error is \<open>Authentication failed\<close>
  and the client already holds the new salt and the token derived from it.
\<close>

theorem Authenticate_failure_overwrites:
  assumes "fst (Authenticate lib g s password) = Returns (Some err)"
  shows "salt (fst (snd (Authenticate lib g s password))) = fst (generateSalt g) \<and>
         token (fst (snd (Authenticate lib g s password))) =
           Sprintf_x (md5_Sum (password @ fst (generateSalt g))) \<and>
         err = ErrorString ''Authentication failed''"
  using assms
  by (auto simp: Authenticate_unfold split: prod.splits outcome.splits if_splits)

text \<open>
  C9, against a server that refuses the connection: the client had the salt
  \<open>0123456789\<close> and is left with the salt \<open>dkryFMT07e\<close> and its token.
\<close>

theorem Authenticate_failure_overwrites_witness:
  "salt example_client = ''0123456789'' \<and>
   fst (Authenticate example_lib example_rng (example_client\<lparr>Client := Some refusing_server\<rparr>)
          ''sesame'') = Returns (Some (ErrorString ''Authentication failed'')) \<and>
   salt (fst (snd (Authenticate example_lib example_rng
                     (example_client\<lparr>Client := Some refusing_server\<rparr>) ''sesame''))) = ''dkryFMT07e'' \<and>
   token (fst (snd (Authenticate example_lib example_rng
                     (example_client\<lparr>Client := Some refusing_server\<rparr>) ''sesame''))) =
     Sprintf_x (md5_Sum ''sesamedkryFMT07e'')"
proof -
  let ?c = "example_client\<lparr>Client := Some refusing_server\<rparr>"
  have A: "fst (Authenticate example_lib example_rng ?c ''sesame'') =
      Returns (Some (ErrorString ''Authentication failed''))"
    by (simp add: Authenticate_unfold example_Ping_refusing example_client_fields
        split: prod.splits)
  show ?thesis
    using Authenticate_failure_overwrites [OF A] A
    by (simp add: example_salt example_client_fields)
qed

text \<open>
  C10. \<open>Request\<close>, \<open>Get\<close> and \<open>Ping\<close> leave the client as it was; \<open>Authenticate\<close>
  leaves the transport handle, the base URL, the user and the client name as they were.
\<close>

theorem operations_frame:
  "snd (Request lib s method endpoint params) = s \<and>
   snd (Get lib s endpoint params) = s \<and>
   snd (Ping lib s) = s \<and>
   Client (fst (snd (Authenticate lib g s password))) = Client s \<and>
   BaseUrl (fst (snd (Authenticate lib g s password))) = BaseUrl s \<and>
   User (fst (snd (Authenticate lib g s password))) = User s \<and>
   ClientName (fst (snd (Authenticate lib g s password))) = ClientName s"
  by (simp add: Request_client Get_client Ping_client Authenticate_unfold
      split: prod.splits outcome.splits)

text \<open>
  C10, for the example client.
\<close>

theorem operations_frame_witness:
  "snd (Get example_lib example_client ''getLicense'' []) = example_client \<and>
   BaseUrl (fst (snd (Authenticate example_lib example_rng example_client ''sesame''))) =
     ''http://host/music''"
  using operations_frame [of example_lib example_client "''GET''" "''getLicense''" "[]"
      example_rng "''sesame''"]
  by (simp add: example_client_fields)

end
